theory Spec2Isabelle
  imports Complex_Main "HOL-Library.Word"
begin

unbundle bit_operations_syntax

section \<open>The file-descriptor transport of \<^verbatim>\<open>tvm/micro/transport/fd.py\<close>\<close>

text \<open>
  \<^verbatim>\<open>FdTransport\<close> reads and writes a pair of file descriptors through the operating
  system: \<^verbatim>\<open>fcntl.fcntl\<close>, \<^verbatim>\<open>os.close\<close>, \<^verbatim>\<open>select.select\<close>, \<^verbatim>\<open>os.read\<close>,
  \<^verbatim>\<open>os.write\<close> and \<^verbatim>\<open>time.monotonic\<close>. The methods are embedded as functions that
  take the state of the operating system and return it updated, next to either the
  exception raised (\<open>Inl\<close>) or the value returned (\<open>Inr\<close>).
\<close>

subsection \<open>Values, exceptions and the operating system\<close>

type_synonym bytes = "8 word list"

text \<open>
  The exceptions the methods can end with: the three of the module and its base, and
  those of the interpreter and the library calls.
\<close>

datatype error =
    FdConfigurationError
  | IoTimeoutError
  | TransportClosedError
  | OSError
  | TypeError
  | ValueError

text \<open>
  \<^verbatim>\<open>_await_ready\<close> is called with positional arguments whose kinds differ from one call
  site to the other, so its arguments are Python values: \<^verbatim>\<open>None\<close>, a number, or a
  list of descriptor fields (each an integer or \<^verbatim>\<open>None\<close>).
\<close>

datatype pyval =
    PNone
  | PFloat real
  | PList "int option list"

text \<open>Every call that reaches the operating system is recorded, in order.\<close>

datatype syscall =
    Fcntl_GETFL int
  | Fcntl_SETFL int int
  | Close int
  | Select "int list" "int list" "int list" real
  | Read int int
  | Write int bytes

text \<open>
  The state of the operating system as the transport sees it.
  \<^item> \<open>fdtab\<close>: the open descriptors, each with its status flags;
  \<^item> \<open>setfl_ret\<close>: the integer a successful \<^verbatim>\<open>fcntl(fd, F_SETFL, v)\<close> returns
    (POSIX: a value other than -1; Linux: 0);
  \<^item> \<open>clock\<close>: the reading of \<^verbatim>\<open>time.monotonic()\<close>;
  \<^item> \<open>selects\<close>: what the coming calls of \<^verbatim>\<open>select\<close> find: the time each takes and
    the descriptors that are readable, writable and in an exceptional condition;
  \<^item> \<open>reads\<close>: what the coming calls of \<^verbatim>\<open>os.read\<close> find: \<open>None\<close> when the call
    fails (nothing available on a non-blocking descriptor, for one), otherwise the
    bytes available, the empty sequence at end of stream;
  \<^item> \<open>writes\<close>: what the coming calls of \<^verbatim>\<open>os.write\<close> find: \<open>None\<close> when the call
    fails, otherwise the number of bytes the descriptor has room for;
  \<^item> \<open>sent\<close>: per descriptor, the bytes \<^verbatim>\<open>os.write\<close> has accepted, in order;
  \<^item> \<open>calls\<close>: the record of the calls made.
  A queue that has run out answers as an idle peer does: \<^verbatim>\<open>select\<close> finds nothing
  ready, \<^verbatim>\<open>os.read\<close> and \<^verbatim>\<open>os.write\<close> fail.
\<close>

record world =
  fdtab :: "int \<rightharpoonup> int"
  setfl_ret :: int
  clock :: real
  selects :: "(real \<times> int list \<times> int list \<times> int list) list"
  reads :: "bytes option list"
  writes :: "nat option list"
  sent :: "int \<Rightarrow> bytes"
  calls :: "syscall list"

definition O_NONBLOCK :: int where
  "O_NONBLOCK = 2048"

definition logged :: "syscall \<Rightarrow> world \<Rightarrow> world" where
  "logged c w = w\<lparr>calls := calls w @ [c]\<rparr>"

definition monotonic :: "world \<Rightarrow> real" where
  "monotonic w = clock w"

text \<open>\<^verbatim>\<open>fcntl.fcntl(fd, fcntl.F_GETFL)\<close>: the flags of an open descriptor.\<close>

definition fcntl_getfl :: "int \<Rightarrow> world \<Rightarrow> (error + int) \<times> world" where
  "fcntl_getfl fd w =
     (case fdtab w fd of
        None \<Rightarrow> (Inl OSError, logged (Fcntl_GETFL fd) w)
      | Some flag \<Rightarrow> (Inr flag, logged (Fcntl_GETFL fd) w))"

text \<open>
  \<^verbatim>\<open>fcntl.fcntl(fd, fcntl.F_SETFL, v)\<close>: stores the flags and returns what the C call
  returns, which is not the new flags.
\<close>

definition fcntl_setfl :: "int \<Rightarrow> int \<Rightarrow> world \<Rightarrow> (error + int) \<times> world" where
  "fcntl_setfl fd v w =
     (case fdtab w fd of
        None \<Rightarrow> (Inl OSError, logged (Fcntl_SETFL fd v) w)
      | Some _ \<Rightarrow> (Inr (setfl_ret w), (logged (Fcntl_SETFL fd v) w)\<lparr>fdtab := (fdtab w)(fd \<mapsto> v)\<rparr>))"

text \<open>
  \<^verbatim>\<open>os.close(fd)\<close>: \<^verbatim>\<open>None\<close> is not an integer; a descriptor that is not open gives
  \<^verbatim>\<open>OSError\<close> (EBADF); an open one is released.
\<close>

definition os_close :: "int option \<Rightarrow> world \<Rightarrow> (error + unit) \<times> world" where
  "os_close f w =
     (case f of
        None \<Rightarrow> (Inl TypeError, w)
      | Some fd \<Rightarrow>
          (case fdtab w fd of
             None \<Rightarrow> (Inl OSError, logged (Close fd) w)
           | Some _ \<Rightarrow> (Inr (), (logged (Close fd) w)\<lparr>fdtab := (fdtab w)(fd := None)\<rparr>)))"

text \<open>
  The system call \<^verbatim>\<open>select\<close> on three lists of descriptors, with a timeout in seconds.
  It fails on a descriptor that is not open; otherwise it returns, of each list, the
  descriptors that the environment reports in that condition, and the time the
  environment says has passed. With nothing more to report, nothing becomes ready and
  the whole timeout passes.
\<close>

definition os_select ::
  "int list \<Rightarrow> int list \<Rightarrow> int list \<Rightarrow> real \<Rightarrow> world
     \<Rightarrow> (error + int list \<times> int list \<times> int list) \<times> world" where
  "os_select rl wl xl t w =
     (if \<not> list_all (\<lambda>fd. fdtab w fd \<noteq> None) (rl @ wl @ xl)
        then (Inl OSError, logged (Select rl wl xl t) w)
      else
        (case selects w of
           [] \<Rightarrow> (Inr ([], [], []), (logged (Select rl wl xl t) w)\<lparr>clock := clock w + t\<rparr>)
         | (dt, rs, ws, xs) # rest \<Rightarrow>
             (Inr (filter (\<lambda>fd. fd \<in> set rs) rl,
                   filter (\<lambda>fd. fd \<in> set ws) wl,
                   filter (\<lambda>fd. fd \<in> set xs) xl),
              (logged (Select rl wl xl t) w)\<lparr>clock := clock w + dt, selects := rest\<rparr>)))"

text \<open>
  \<^verbatim>\<open>select.select(rlist, wlist, rlist + wlist, timeout_sec)\<close>. \<^verbatim>\<open>rlist + wlist\<close> needs
  two lists; the library then checks the timeout, a non-negative number
  (\<^verbatim>\<open>_await_ready\<close> never passes \<^verbatim>\<open>None\<close> here: it has replaced it by a number), and
  that the lists hold integers, before it makes the system call.
\<close>

definition select_select ::
  "pyval \<Rightarrow> pyval \<Rightarrow> pyval \<Rightarrow> world \<Rightarrow> (error + int list \<times> int list \<times> int list) \<times> world" where
  "select_select rlist wlist timeout_sec w =
     (case (rlist, wlist, timeout_sec) of
        (PList rs, PList ws, PFloat t) \<Rightarrow>
          (if t < 0 then (Inl ValueError, w)
           else if None \<in> set (rs @ ws) then (Inl TypeError, w)
           else os_select (map the rs) (map the ws) (map the (rs @ ws)) t w)
      | _ \<Rightarrow> (Inl TypeError, w))"

text \<open>
  \<^verbatim>\<open>os.read(fd, n)\<close>: at most \<open>n\<close> of the bytes available.
\<close>

definition os_read :: "int option \<Rightarrow> int \<Rightarrow> world \<Rightarrow> (error + bytes) \<times> world" where
  "os_read f n w =
     (case f of
        None \<Rightarrow> (Inl TypeError, w)
      | Some fd \<Rightarrow>
          (if fdtab w fd = None \<or> n < 0 then (Inl OSError, logged (Read fd n) w)
           else
             (case reads w of
                [] \<Rightarrow> (Inl OSError, logged (Read fd n) w)
              | None # rest \<Rightarrow> (Inl OSError, (logged (Read fd n) w)\<lparr>reads := rest\<rparr>)
              | Some avail # rest \<Rightarrow>
                  (Inr (take (nat n) avail), (logged (Read fd n) w)\<lparr>reads := rest\<rparr>))))"

text \<open>
  \<^verbatim>\<open>os.write(fd, data)\<close>: accepts as many leading bytes of \<open>data\<close> as there is room
  for, and returns their number.
\<close>

definition os_write :: "int option \<Rightarrow> bytes \<Rightarrow> world \<Rightarrow> (error + nat) \<times> world" where
  "os_write f data w =
     (case f of
        None \<Rightarrow> (Inl TypeError, w)
      | Some fd \<Rightarrow>
          (if fdtab w fd = None then (Inl OSError, logged (Write fd data) w)
           else
             (case writes w of
                [] \<Rightarrow> (Inl OSError, logged (Write fd data) w)
              | None # rest \<Rightarrow> (Inl OSError, (logged (Write fd data) w)\<lparr>writes := rest\<rparr>)
              | Some room # rest \<Rightarrow>
                  (Inr (min room (length data)),
                   (logged (Write fd data) w)
                     \<lparr>writes := rest, sent := (sent w)(fd := sent w fd @ take room data)\<rparr>))))"

subsection \<open>The transport\<close>

text \<open>
  The instance holds the two descriptors. Nothing after \<^verbatim>\<open>__init__\<close> assigns to them,
  so the methods take the instance and do not return it.
\<close>

record transport =
  read_fd :: "int option"
  write_fd :: "int option"

text \<open>What the constructor accepts: an integer, or an object with \<^verbatim>\<open>fileno()\<close>.\<close>

datatype fdlike = FdInt int | FdFile int

fun fileno :: "fdlike \<Rightarrow> int" where
  "fileno (FdInt fd) = fd"
| "fileno (FdFile fd) = fd"

definition validate_configure_fd :: "fdlike \<Rightarrow> world \<Rightarrow> (error + int) \<times> world" where
  "validate_configure_fd f w =
     (let fd = fileno f in
      case fcntl_getfl fd w of
        (Inl e, w1) \<Rightarrow> (Inl e, w1)
      | (Inr flag, w1) \<Rightarrow>
          (if flag AND O_NONBLOCK \<noteq> 0 then (Inr fd, w1)
           else
             (case fcntl_setfl fd (O_NONBLOCK OR flag) w1 of
                (Inl e, w2) \<Rightarrow> (Inl e, w2)
              | (Inr flag', w2) \<Rightarrow>
                  (if flag' AND O_NONBLOCK = 0 then (Inl FdConfigurationError, w2)
                   else (Inr fd, w2)))))"

definition init :: "fdlike \<Rightarrow> fdlike \<Rightarrow> world \<Rightarrow> (error + transport) \<times> world" where
  "init rfd wfd w =
     (case validate_configure_fd rfd w of
        (Inl e, w1) \<Rightarrow> (Inl e, w1)
      | (Inr r, w1) \<Rightarrow>
          (case validate_configure_fd wfd w1 of
             (Inl e, w2) \<Rightarrow> (Inl e, w2)
           | (Inr wr, w2) \<Rightarrow> (Inr \<lparr>read_fd = Some r, write_fd = Some wr\<rparr>, w2)))"

definition close :: "transport \<Rightarrow> world \<Rightarrow> (error + unit) \<times> world" where
  "close t w =
     (case (if read_fd t \<noteq> None then os_close (read_fd t) w else (Inr (), w)) of
        (Inl e, w1) \<Rightarrow> (Inl e, w1)
      | (Inr _, w1) \<Rightarrow>
          (if write_fd t \<noteq> None then os_close (write_fd t) w1 else (Inr (), w1)))"

text \<open>
  \<^verbatim>\<open>_await_ready(self, rlist, wlist, timeout_sec=None, end_time=None)\<close>. It returns
  \<^verbatim>\<open>True\<close> (\<open>Some True\<close>) on an exceptional condition and \<^verbatim>\<open>None\<close> otherwise.
\<close>

definition await_ready ::
  "pyval \<Rightarrow> pyval \<Rightarrow> pyval \<Rightarrow> pyval \<Rightarrow> world \<Rightarrow> (error + bool option) \<times> world" where
  "await_ready rlist wlist timeout_sec end_time w =
     (if end_time = PNone then (Inr None, w)
      else
        (case (if timeout_sec = PNone
               then (case end_time of
                       PFloat e \<Rightarrow> Inr (PFloat (max 0 (e - monotonic w)))
                     | _ \<Rightarrow> Inl TypeError)
               else Inr timeout_sec) of
           Inl e \<Rightarrow> (Inl e, w)
         | Inr timeout_sec' \<Rightarrow>
             (case select_select rlist wlist timeout_sec' w of
                (Inl e, w1) \<Rightarrow> (Inl e, w1)
              | (Inr (rl, wl, xl), w1) \<Rightarrow>
                  (if rl = [] \<and> wl = [] \<and> xl = [] then (Inl IoTimeoutError, w1)
                   else if xl \<noteq> [] then (Inr (Some True), w1)
                   else (Inr None, w1)))))"

definition deadline :: "real option \<Rightarrow> world \<Rightarrow> pyval" where
  "deadline timeout_sec w =
     (case timeout_sec of None \<Rightarrow> PNone | Some ts \<Rightarrow> PFloat (monotonic w + ts))"

text \<open>
  The two exits of a detected closure: \<^verbatim>\<open>self.close()\<close>, then
  \<^verbatim>\<open>raise TransportClosedError()\<close>, unless closing itself raised.
\<close>

definition close_and_raise :: "transport \<Rightarrow> world \<Rightarrow> (error + 'a) \<times> world" where
  "close_and_raise t w =
     (case close t w of
        (Inl e, w1) \<Rightarrow> (Inl e, w1)
      | (Inr _, w1) \<Rightarrow> (Inl TransportClosedError, w1))"

definition read :: "transport \<Rightarrow> int \<Rightarrow> real option \<Rightarrow> world \<Rightarrow> (error + bytes) \<times> world" where
  "read t n timeout_sec w =
     (let end_time = deadline timeout_sec w in
      case await_ready (PList [read_fd t]) (PList []) PNone end_time w of
        (Inl e, w1) \<Rightarrow> (Inl e, w1)
      | (Inr _, w1) \<Rightarrow>
          (case os_read (read_fd t) n w1 of
             (Inl e, w2) \<Rightarrow> (Inl e, w2)
           | (Inr to_return, w2) \<Rightarrow>
               (if to_return = [] then close_and_raise t w2
                else (Inr to_return, w2))))"

text \<open>
  The loop of \<^verbatim>\<open>write\<close>. The call \<^verbatim>\<open>self._await_ready(end_time, [], [self.write_fd])\<close>
  is positional: \<open>end_time\<close> is bound to \<open>rlist\<close>, the list holding the write descriptor
  to \<open>timeout_sec\<close>, and the parameter \<open>end_time\<close> keeps its default \<^verbatim>\<open>None\<close>.
\<close>

function write_loop :: "transport \<Rightarrow> pyval \<Rightarrow> bytes \<Rightarrow> world \<Rightarrow> (error + unit) \<times> world" where
  "write_loop t end_time data w =
     (if data = [] then (Inr (), w)
      else
        (case await_ready end_time (PList []) (PList [write_fd t]) PNone w of
           (Inl e, w1) \<Rightarrow> (Inl e, w1)
         | (Inr _, w1) \<Rightarrow>
             (case os_write (write_fd t) data w1 of
                (Inl e, w2) \<Rightarrow> (Inl e, w2)
              | (Inr num_written, w2) \<Rightarrow>
                  (if num_written = 0 then close_and_raise t w2
                   else write_loop t end_time (drop num_written data) w2))))"
  by pat_completeness auto
termination
  by (relation "measure (\<lambda>(t, end_time, data, w). length data)") auto

text \<open>\<^verbatim>\<open>write\<close> is a keyword of the proof language, so the method is \<open>write'\<close> here.\<close>

definition write' :: "transport \<Rightarrow> bytes \<Rightarrow> real option \<Rightarrow> world \<Rightarrow> (error + nat) \<times> world" where
  "write' t data timeout_sec w =
     (let end_time = deadline timeout_sec w;
          data_len = length data in
      case write_loop t end_time data w of
        (Inl e, w1) \<Rightarrow> (Inl e, w1)
      | (Inr _, w1) \<Rightarrow> (Inr data_len, w1))"

subsection \<open>Counting calls, and a small world to run the methods in\<close>

fun is_select :: "syscall \<Rightarrow> bool" where
  "is_select (Select _ _ _ _) = True"
| "is_select _ = False"

fun is_read :: "syscall \<Rightarrow> bool" where
  "is_read (Read _ _) = True"
| "is_read _ = False"

definition select_count :: "world \<Rightarrow> nat" where
  "select_count w = length (filter is_select (calls w))"

definition read_count :: "world \<Rightarrow> nat" where
  "read_count w = length (filter is_read (calls w))"

text \<open>
  A Linux process with two open non-blocking descriptors, 3 opened for reading and 4
  for writing, an idle peer and no call made yet; and the transport over them.
\<close>

definition world0 :: world where
  "world0 = \<lparr>fdtab = [3 \<mapsto> 2048, 4 \<mapsto> 2049], setfl_ret = 0, clock = 0, selects = [],
              reads = [], writes = [], sent = (\<lambda>fd. []), calls = []\<rparr>"

definition tr34 :: transport where
  "tr34 = \<lparr>read_fd = Some 3, write_fd = Some 4\<rparr>"

text \<open>The five bytes of \<^verbatim>\<open>b"hello"\<close>.\<close>

definition hello :: bytes where
  "hello = [104, 101, 108, 108, 111]"

section \<open>Properties\<close>

subsection \<open>The loop of \<^verbatim>\<open>write\<close>\<close>

declare write_loop.simps [simp del]

lemma await_ready_no_end_time:
  "await_ready rlist wlist timeout_sec PNone w = (Inr None, w)"
  by (simp add: await_ready_def)

text \<open>The wait of the loop has no deadline, so an iteration is the write alone.\<close>

lemma write_loop_unfold:
  "write_loop t end_time data w =
     (if data = [] then (Inr (), w)
      else
        (case os_write (write_fd t) data w of
           (Inl e, w2) \<Rightarrow> (Inl e, w2)
         | (Inr num_written, w2) \<Rightarrow>
             (if num_written = 0 then close_and_raise t w2
              else write_loop t end_time (drop num_written data) w2)))"
  by (subst write_loop.simps) (simp add: await_ready_no_end_time)

text \<open>
  Induction over a run of the loop, by the ways an iteration can end: nothing left to
  send, a failed write, a write of zero bytes, and a write of \<open>k > 0\<close> bytes followed by
  the rest of the run.
\<close>

lemma write_loop_outcome [consumes 1, case_names empty fail zero step]:
  assumes run: "write_loop t end_time data w = (r, w')"
    and empty: "\<And>w. Q [] w (Inr ()) w"
    and fail: "\<And>data w e w2. data \<noteq> [] \<Longrightarrow> os_write (write_fd t) data w = (Inl e, w2)
                 \<Longrightarrow> Q data w (Inl e) w2"
    and zero: "\<And>data w w2 r w'. data \<noteq> [] \<Longrightarrow> os_write (write_fd t) data w = (Inr 0, w2)
                 \<Longrightarrow> close_and_raise t w2 = (r, w') \<Longrightarrow> Q data w r w'"
    and step: "\<And>data w k w2 r w'. data \<noteq> [] \<Longrightarrow> os_write (write_fd t) data w = (Inr k, w2)
                 \<Longrightarrow> k \<noteq> 0 \<Longrightarrow> write_loop t end_time (drop k data) w2 = (r, w')
                 \<Longrightarrow> Q (drop k data) w2 r w' \<Longrightarrow> Q data w r w'"
  shows "Q data w r w'"
  using run
proof (induction "length data" arbitrary: data w rule: less_induct)
  case less
  show ?case
  proof (cases "data = []")
    case True
    with less.prems empty show ?thesis by (auto simp: write_loop_unfold)
  next
    case False
    obtain r2 w2 where ow: "os_write (write_fd t) data w = (r2, w2)" by force
    show ?thesis
    proof (cases r2)
      case (Inl e)
      with ow have ow': "os_write (write_fd t) data w = (Inl e, w2)" by simp
      with False less.prems have "r = Inl e" "w' = w2"
        by (simp_all add: write_loop_unfold)
      with fail [OF False ow'] show ?thesis by simp
    next
      case (Inr k)
      with ow have ow': "os_write (write_fd t) data w = (Inr k, w2)" by simp
      show ?thesis
      proof (cases "k = 0")
        case True
        with ow' False less.prems have "close_and_raise t w2 = (r, w')"
          by (simp add: write_loop_unfold)
        with zero [OF False] ow' True show ?thesis by simp
      next
        case nz: False
        from ow' False nz less.prems
        have rec: "write_loop t end_time (drop k data) w2 = (r, w')"
          by (simp add: write_loop_unfold)
        from False nz have "length (drop k data) < length data" by simp
        then have "Q (drop k data) w2 r w'" using rec by (rule less.hyps)
        with step [OF False ow' nz rec] show ?thesis .
      qed
    qed
  qed
qed

text \<open>What the calls of the loop do to the bytes accepted so far.\<close>

lemma os_write_sent:
  "os_write (Some fd) data w = (Inr k, w2) \<Longrightarrow>
     sent w2 fd = sent w fd @ take k data \<and> k \<le> length data"
  by (auto simp: os_write_def logged_def min_def split: if_splits list.splits option.splits)

lemma os_write_sent_fail:
  "os_write f data w = (Inl e, w2) \<Longrightarrow> sent w2 = sent w"
  by (auto simp: os_write_def logged_def split: if_splits list.splits option.splits)

lemma os_close_sent:
  "os_close f w = (r, w2) \<Longrightarrow> sent w2 = sent w"
  by (auto simp: os_close_def logged_def split: option.splits)

lemma close_sent:
  "close t w = (r, w2) \<Longrightarrow> sent w2 = sent w"
  by (fastforce simp: close_def split: sum.splits prod.splits if_splits dest: os_close_sent)

lemma close_and_raise_sent:
  "close_and_raise t w = (r, w2) \<Longrightarrow> sent w2 = sent w"
  by (auto simp: close_and_raise_def split: sum.splits prod.splits dest: close_sent)

lemma close_and_raise_fails:
  "close_and_raise t w = (r, w2) \<Longrightarrow> \<exists>e. r = Inl e"
  by (auto simp: close_and_raise_def split: sum.splits prod.splits)

lemma write_loop_sent:
  assumes "write_loop t end_time data w = (r, w')" and "write_fd t = Some fd"
  shows "\<exists>m\<le>length data. sent w' fd = sent w fd @ take m data \<and> (r = Inr () \<longrightarrow> m = length data)"
  using assms(1)
proof (induction rule: write_loop_outcome)
  case (empty w)
  show ?case by simp
next
  case (fail data w e w2)
  then have "sent w2 = sent w" by (auto dest: os_write_sent_fail)
  then show ?case by (intro exI [of _ 0]) simp
next
  case (zero data w w2 r w')
  from zero(2) assms(2) have "sent w2 fd = sent w fd" by (auto dest: os_write_sent)
  moreover from zero(3) have "sent w' = sent w2" by (rule close_and_raise_sent)
  moreover from zero(3) have "r \<noteq> Inr ()" by (auto dest: close_and_raise_fails)
  ultimately show ?case by (intro exI [of _ 0]) simp
next
  case (step data w k w2 r w')
  from step(2) assms(2) have s2: "sent w2 fd = sent w fd @ take k data" and kl: "k \<le> length data"
    by (auto dest: os_write_sent)
  from step(5) obtain m where ml: "m \<le> length (drop k data)"
    and sm: "sent w' fd = sent w2 fd @ take m (drop k data)"
    and fin: "r = Inr () \<longrightarrow> m = length (drop k data)" by blast
  have "sent w' fd = sent w fd @ take (k + m) data"
    using s2 sm by (simp add: take_add)
  moreover have "k + m \<le> length data" using ml kl by simp
  moreover have "r = Inr () \<longrightarrow> k + m = length data" using fin kl by simp
  ultimately show ?case by blast
qed

text \<open>
  A run on the small world: the peer takes two bytes, then one, then the rest.
\<close>

lemma hello_run:
  "write' tr34 hello (Some 1) (world0\<lparr>writes := [Some 2, Some 1, Some 64]\<rparr>) =
     (Inr 5, world0\<lparr>sent := (\<lambda>fd. [])(4 := hello),
                     calls := [Write 4 hello, Write 4 [108, 108, 111], Write 4 [108, 111]]\<rparr>)"
  by (simp add: write'_def write_loop_unfold os_write_def deadline_def tr34_def world0_def
      logged_def hello_def)

subsection \<open>What each call leaves alone\<close>

text \<open>
  The select call and the waiter touch the clock, the select queue and the record of
  calls only; \<^verbatim>\<open>os.read\<close>, \<^verbatim>\<open>os.write\<close> and \<^verbatim>\<open>os.close\<close> never time out.
\<close>

lemma select_select_frame:
  assumes "select_select rlist wlist timeout_sec w = (r, w1)"
  shows "fdtab w1 = fdtab w \<and> reads w1 = reads w \<and> writes w1 = writes w \<and> sent w1 = sent w
         \<and> setfl_ret w1 = setfl_ret w \<and> r \<noteq> Inl IoTimeoutError
         \<and> (calls w1 = calls w \<or> (\<exists>c. is_select c \<and> calls w1 = calls w @ [c]))
         \<and> (case r of Inl e \<Rightarrow> True | Inr _ \<Rightarrow> (\<exists>c. is_select c \<and> calls w1 = calls w @ [c]))"
  using assms
  by (auto simp: select_select_def os_select_def logged_def
      split: option.splits pyval.splits if_splits list.splits prod.splits)

lemma await_ready_frame:
  assumes "await_ready rlist wlist timeout_sec end_time w = (r, w1)"
  shows "fdtab w1 = fdtab w \<and> reads w1 = reads w \<and> writes w1 = writes w \<and> sent w1 = sent w
         \<and> setfl_ret w1 = setfl_ret w
         \<and> (calls w1 = calls w \<or> (\<exists>c. is_select c \<and> calls w1 = calls w @ [c]))"
  using assms
  by (auto simp: await_ready_def split: sum.splits prod.splits if_splits pyval.splits
      dest: select_select_frame)

lemma await_ready_timeout:
  assumes "await_ready rlist wlist timeout_sec end_time w = (Inl IoTimeoutError, w1)"
  shows "\<exists>c. is_select c \<and> calls w1 = calls w @ [c]"
  using assms
  by (auto simp: await_ready_def split: sum.splits prod.splits if_splits pyval.splits
      dest: select_select_frame)

lemma await_ready_read_count:
  assumes "await_ready rlist wlist timeout_sec end_time w = (r, w1)"
  shows "read_count w1 = read_count w"
  using await_ready_frame [OF assms] by (auto simp: read_count_def elim: is_select.elims)

lemma os_read_frame:
  assumes "os_read f n w = (r, w2)"
  shows "fdtab w2 = fdtab w \<and> writes w2 = writes w \<and> sent w2 = sent w
         \<and> r \<noteq> Inl IoTimeoutError \<and> r \<noteq> Inl TransportClosedError
         \<and> read_count w2 \<le> read_count w + 1"
  using assms
  by (auto simp: os_read_def logged_def read_count_def split: option.splits if_splits list.splits)

lemma os_read_ok:
  assumes "os_read f n w = (Inr bs, w2)"
  shows "int (length bs) \<le> n \<and> read_count w2 = read_count w + 1
         \<and> (\<exists>fd y. f = Some fd \<and> fdtab w fd = Some y)"
  using assms
  by (auto simp: os_read_def logged_def read_count_def split: option.splits if_splits list.splits)

lemma os_close_frame:
  assumes "os_close f w = (r, w2)"
  shows "read_count w2 = read_count w \<and> select_count w2 = select_count w \<and> sent w2 = sent w
         \<and> r \<noteq> Inl IoTimeoutError \<and> r \<noteq> Inl TransportClosedError"
  using assms
  by (auto simp: os_close_def logged_def read_count_def select_count_def split: option.splits)

lemma close_frame:
  assumes "close t w = (r, w2)"
  shows "read_count w2 = read_count w \<and> select_count w2 = select_count w \<and> sent w2 = sent w
         \<and> r \<noteq> Inl IoTimeoutError \<and> r \<noteq> Inl TransportClosedError"
proof -
  obtain r1 w1 where 1: "(if read_fd t \<noteq> None then os_close (read_fd t) w else (Inr (), w)) = (r1, w1)"
    by force
  then have f1: "read_count w1 = read_count w \<and> select_count w1 = select_count w \<and> sent w1 = sent w
         \<and> r1 \<noteq> Inl IoTimeoutError \<and> r1 \<noteq> Inl TransportClosedError"
    by (auto split: if_splits dest: os_close_frame)
  show ?thesis
  proof (cases r1)
    case (Inl e)
    with 1 assms f1 show ?thesis by (simp add: close_def)
  next
    case (Inr u)
    with 1 assms have "(if write_fd t \<noteq> None then os_close (write_fd t) w1 else (Inr (), w1)) = (r, w2)"
      by (simp add: close_def)
    then have "read_count w2 = read_count w1 \<and> select_count w2 = select_count w1 \<and> sent w2 = sent w1
         \<and> r \<noteq> Inl IoTimeoutError \<and> r \<noteq> Inl TransportClosedError"
      by (auto split: if_splits dest: os_close_frame)
    with f1 show ?thesis by simp
  qed
qed

lemma close_and_raise_frame:
  assumes "close_and_raise t w = (r, w2)"
  shows "read_count w2 = read_count w \<and> select_count w2 = select_count w \<and> sent w2 = sent w
         \<and> r \<noteq> Inl IoTimeoutError \<and> (\<exists>e. r = Inl e)"
  using assms
  by (auto simp: close_and_raise_def split: sum.splits prod.splits dest: close_frame)

lemma os_write_frame:
  assumes "os_write f data w = (r, w2)"
  shows "fdtab w2 = fdtab w \<and> select_count w2 = select_count w
         \<and> r \<noteq> Inl IoTimeoutError \<and> r \<noteq> Inl TransportClosedError"
  using assms
  by (auto simp: os_write_def logged_def select_count_def split: option.splits if_splits list.splits)

lemma write_loop_never_waits:
  assumes "write_loop t end_time data w = (r, w')"
  shows "r \<noteq> Inl IoTimeoutError \<and> select_count w' = select_count w"
  using assms
proof (induction rule: write_loop_outcome)
  case (empty w)
  show ?case by simp
next
  case (fail data w e w2)
  from os_write_frame [OF fail(2)] show ?case by simp
next
  case (zero data w w2 r w')
  from os_write_frame [OF zero(2)] close_and_raise_frame [OF zero(3)] show ?case by simp
next
  case (step data w k w2 r w')
  from os_write_frame [OF step(2)] step(5) show ?case by simp
qed

lemma write_never_waits:
  "fst (write' t data timeout_sec w) \<noteq> Inl IoTimeoutError
   \<and> select_count (snd (write' t data timeout_sec w)) = select_count w"
proof -
  obtain r w1 where run: "write_loop t (deadline timeout_sec w) data w = (r, w1)" by force
  from write_loop_never_waits [OF run] run show ?thesis
    by (cases r) (simp_all add: write'_def)
qed

text \<open>A read on the small world, whose peer is idle, times out after its second.\<close>

lemma read_times_out:
  "read tr34 1 (Some 1) world0 =
     (Inl IoTimeoutError, world0\<lparr>clock := 1, calls := [Select [3] [] [3] 1]\<rparr>)"
  by (simp add: read_def await_ready_def select_select_def os_select_def monotonic_def
      deadline_def tr34_def world0_def logged_def)

subsection \<open>The readiness waiter without a deadline\<close>

text \<open>
  C6. Called with no deadline (\<open>end_time\<close> absent), \<^verbatim>\<open>_await_ready\<close> returns at once,
  whatever its other arguments are: the result is \<^verbatim>\<open>None\<close> and the operating system
  is exactly as before, so \<^verbatim>\<open>select\<close> was not called, no time passed and no
  descriptor was looked at.
\<close>

theorem await_ready_without_deadline:
  "await_ready rlist wlist timeout_sec PNone w = (Inr None, w)"
  unfolding await_ready_def by simp

subsection \<open>Writing the empty payload\<close>

text \<open>
  C10. For every timeout, \<^verbatim>\<open>write(b"", timeout_sec)\<close> returns 0 and leaves the operating
  system exactly as it was: the loop body does not run, so there is no wait, no write
  and no error.
\<close>

theorem write_empty_payload:
  "write' t [] timeout_sec w = (Inr 0, w)"
  by (simp add: write'_def write_loop_unfold)

subsection \<open>What \<^verbatim>\<open>write\<close> returns\<close>

text \<open>
  C7. \<^verbatim>\<open>write\<close> ends either with an exception or with a return value; when it returns,
  the value is the length of the whole payload, and the write descriptor has accepted
  exactly the payload after what it held before. (The function is total: its loop
  terminates, since every iteration that continues drops at least one byte.)
\<close>

theorem write_returns_full_length:
  assumes "write' t data timeout_sec w = (Inr k, w')"
  shows "k = length data \<and> (write_fd t = Some fd \<longrightarrow> sent w' fd = sent w fd @ data)"
proof -
  obtain r w1 where run: "write_loop t (deadline timeout_sec w) data w = (r, w1)" by force
  with assms have r: "r = Inr ()" and k: "k = length data" and w1: "w1 = w'"
    by (auto simp: write'_def Let_def split: sum.splits)
  have "sent w' fd = sent w fd @ data" if "write_fd t = Some fd"
    using write_loop_sent [OF run that] r w1 by auto
  with k show ?thesis by simp
qed

theorem write_returns_full_length_witness:
  "write' tr34 hello (Some 1) (world0\<lparr>writes := [Some 2, Some 1, Some 64]\<rparr>) =
     (Inr 5, world0\<lparr>sent := (\<lambda>fd. [])(4 := hello),
                     calls := [Write 4 hello, Write 4 [108, 108, 111], Write 4 [108, 111]]\<rparr>)
   \<and> (5::nat) = length hello
   \<and> write_fd tr34 = Some 4
   \<and> sent (world0\<lparr>sent := (\<lambda>fd. [])(4 := hello),
                     calls := [Write 4 hello, Write 4 [108, 108, 111], Write 4 [108, 111]]\<rparr>) 4
       = sent (world0\<lparr>writes := [Some 2, Some 1, Some 64]\<rparr>) 4 @ hello"
  using write_returns_full_length [OF hello_run, of 4] hello_run
  by (simp add: tr34_def)

subsection \<open>Partial writes\<close>

text \<open>
  C8. Let the write descriptor have accepted \<open>pre\<close> so far (after \<open>s0\<close>, what it held
  before the call), with \<open>data\<close> the unsent remainder, so that the payload is
  \<open>pre @ data\<close>. An iteration whose write accepts \<open>k > 0\<close> bytes continues the loop
  with \<open>drop k data\<close>: exactly the first \<open>k\<close> bytes move from the remainder to the
  accepted bytes, and accepted bytes and remainder still make up the payload. However
  the run ends, the descriptor has accepted a prefix of the remainder, in order and
  once; the whole of it when the loop ends normally.
\<close>

theorem write_remainder_is_exact_suffix:
  assumes fd: "write_fd t = Some fd" and acc: "sent w fd = s0 @ pre"
  shows "(data \<noteq> [] \<and> os_write (write_fd t) data w = (Inr k, w2) \<and> k \<noteq> 0 \<longrightarrow>
            write_loop t end_time data w = write_loop t end_time (drop k data) w2
            \<and> sent w2 fd = s0 @ (pre @ take k data)
            \<and> (pre @ take k data) @ drop k data = pre @ data)
       \<and> (write_loop t end_time data w = (r, w') \<longrightarrow>
            (\<exists>m\<le>length data. sent w' fd = s0 @ (pre @ take m data)
                \<and> (r = Inr () \<longrightarrow> m = length data)))"
proof (intro conjI impI)
  assume a: "data \<noteq> [] \<and> os_write (write_fd t) data w = (Inr k, w2) \<and> k \<noteq> 0"
  then show "write_loop t end_time data w = write_loop t end_time (drop k data) w2"
    by (subst write_loop_unfold) simp
  from a fd acc show "sent w2 fd = s0 @ (pre @ take k data)"
    by (auto dest: os_write_sent)
  show "(pre @ take k data) @ drop k data = pre @ data" by simp
next
  assume "write_loop t end_time data w = (r, w')"
  from write_loop_sent [OF this fd] acc
  show "\<exists>m\<le>length data. sent w' fd = s0 @ (pre @ take m data) \<and> (r = Inr () \<longrightarrow> m = length data)"
    by auto
qed


theorem write_remainder_is_exact_suffix_witness:
  "write_fd tr34 = Some 4
   \<and> sent (world0\<lparr>writes := [Some 2, Some 1, Some 64]\<rparr>) 4 = [] @ []
   \<and> hello \<noteq> []
   \<and> os_write (write_fd tr34) hello (world0\<lparr>writes := [Some 2, Some 1, Some 64]\<rparr>) =
        (Inr 2, world0\<lparr>writes := [Some 1, Some 64], sent := (\<lambda>fd. [])(4 := [104, 101]),
                        calls := [Write 4 hello]\<rparr>)
   \<and> (2::nat) \<noteq> 0
   \<and> write_loop tr34 PNone hello (world0\<lparr>writes := [Some 2, Some 1, Some 64]\<rparr>) =
       write_loop tr34 PNone (drop 2 hello)
         (world0\<lparr>writes := [Some 1, Some 64], sent := (\<lambda>fd. [])(4 := [104, 101]),
                  calls := [Write 4 hello]\<rparr>)
   \<and> sent (world0\<lparr>writes := [Some 1, Some 64], sent := (\<lambda>fd. [])(4 := [104, 101]),
                  calls := [Write 4 hello]\<rparr>) 4 = [] @ ([] @ take 2 hello)
   \<and> ([] @ take 2 hello) @ drop 2 hello = [] @ hello
   \<and> write_loop tr34 PNone hello (world0\<lparr>writes := [Some 2, Some 1, Some 64]\<rparr>) =
        (Inr (), world0\<lparr>sent := (\<lambda>fd. [])(4 := hello),
                        calls := [Write 4 hello, Write 4 [108, 108, 111], Write 4 [108, 111]]\<rparr>)
   \<and> sent (world0\<lparr>sent := (\<lambda>fd. [])(4 := hello),
                   calls := [Write 4 hello, Write 4 [108, 108, 111], Write 4 [108, 111]]\<rparr>) 4 =
        [] @ ([] @ take (length hello) hello)"
proof -
  let ?w = "world0\<lparr>writes := [Some 2, Some 1, Some 64]\<rparr>"
  let ?w2 = "world0\<lparr>writes := [Some 1, Some 64], sent := (\<lambda>fd. [])(4 := [104, 101]),
                     calls := [Write 4 hello]\<rparr>"
  let ?w3 = "world0\<lparr>sent := (\<lambda>fd. [])(4 := hello),
                     calls := [Write 4 hello, Write 4 [108, 108, 111], Write 4 [108, 111]]\<rparr>"
  have fd: "write_fd tr34 = Some 4" by (simp add: tr34_def)
  have acc: "sent ?w 4 = [] @ []" by (simp add: world0_def)
  have ow: "os_write (write_fd tr34) hello ?w = (Inr 2, ?w2)"
    by (simp add: os_write_def tr34_def world0_def logged_def hello_def)
  have ne: "hello \<noteq> []" by (simp add: hello_def)
  have two: "(2::nat) \<noteq> 0" by simp
  have "write_loop tr34 PNone hello ?w = write_loop tr34 PNone (drop 2 hello) ?w2
        \<and> sent ?w2 4 = [] @ ([] @ take 2 hello)
        \<and> ([] @ take 2 hello) @ drop 2 hello = [] @ hello"
    using write_remainder_is_exact_suffix [OF fd acc, of hello 2 ?w2 PNone] ow ne two
    by blast
  moreover have run: "write_loop tr34 PNone hello ?w = (Inr (), ?w3)"
    by (simp add: write_loop_unfold os_write_def tr34_def world0_def logged_def hello_def)
  moreover have "sent ?w3 4 = [] @ ([] @ take (length hello) hello)"
    using write_remainder_is_exact_suffix [OF fd acc, of hello 0 ?w PNone "Inr ()" ?w3] run
    by auto
  ultimately show ?thesis using fd acc ow ne two by blast
qed

subsection \<open>One read attempt per call\<close>

text \<open>
  \<^verbatim>\<open>os.read\<close> on a descriptor records exactly its own call; closing records no read.
\<close>

lemma os_read_calls:
  assumes "os_read (Some fd) n w = (r, w2)"
  shows "calls w2 = calls w @ [Read fd n]"
  using assms
  by (auto simp: os_read_def logged_def split: if_splits list.splits option.splits)

lemma os_close_calls:
  assumes "os_close f w = (r, w2)"
  shows "\<exists>cs. calls w2 = calls w @ cs \<and> filter is_read cs = []"
  using assms
  by (auto simp: os_close_def logged_def split: option.splits)

lemma close_calls:
  assumes "close t w = (r, w2)"
  shows "\<exists>cs. calls w2 = calls w @ cs \<and> filter is_read cs = []"
proof -
  obtain r1 w1 where 1: "(if read_fd t \<noteq> None then os_close (read_fd t) w else (Inr (), w)) = (r1, w1)"
    by force
  then obtain cs1 where c1: "calls w1 = calls w @ cs1" "filter is_read cs1 = []"
    by (auto split: if_splits dest: os_close_calls)
  show ?thesis
  proof (cases r1)
    case (Inl e)
    with 1 assms c1 show ?thesis by (auto simp: close_def)
  next
    case (Inr u)
    with 1 assms have "(if write_fd t \<noteq> None then os_close (write_fd t) w1 else (Inr (), w1)) = (r, w2)"
      by (simp add: close_def)
    then obtain cs2 where "calls w2 = calls w1 @ cs2" "filter is_read cs2 = []"
      by (auto split: if_splits dest: os_close_calls)
    with c1 have "calls w2 = calls w @ (cs1 @ cs2) \<and> filter is_read (cs1 @ cs2) = []" by simp
    then show ?thesis by blast
  qed
qed

lemma close_and_raise_calls:
  assumes "close_and_raise t w = (r, w2)"
  shows "\<exists>cs. calls w2 = calls w @ cs \<and> filter is_read cs = []"
  using assms
  by (auto simp: close_and_raise_def split: sum.splits prod.splits dest: close_calls)

text \<open>
  C9. For \<open>n > 0\<close> and a call of \<^verbatim>\<open>read(n, timeout_sec)\<close>:
  \<^item> when the wait fails, \<^verbatim>\<open>read\<close> ends with that failure and makes no read attempt;
  \<^item> when the wait passes, \<^verbatim>\<open>read\<close> makes exactly one read attempt, whatever follows:
    the call \<^verbatim>\<open>os.read(read_fd, n)\<close>, right after the wait, and no other read after it;
  \<^item> when that attempt yields a non-empty result, \<^verbatim>\<open>read\<close> returns exactly that result,
    in the state the attempt left, and it has between 1 and \<open>n\<close> bytes;
  \<^item> whatever the outcome, at most one read attempt is made;
  \<^item> conversely, bytes that \<^verbatim>\<open>read\<close> returns are the result of the one attempt made
    after the wait of this call, between 1 and \<open>n\<close> of them.
\<close>

theorem read_single_attempt:
  assumes "0 < n"
  shows "(await_ready (PList [read_fd t]) (PList []) PNone (deadline timeout_sec w) w = (Inl e, w1) \<longrightarrow>
            read t n timeout_sec w = (Inl e, w1) \<and> read_count w1 = read_count w)
       \<and> (await_ready (PList [read_fd t]) (PList []) PNone (deadline timeout_sec w) w = (Inr v, w1)
            \<and> read_fd t = Some fd \<longrightarrow>
            (\<exists>cs. calls (snd (read t n timeout_sec w)) = calls w1 @ Read fd n # cs
                  \<and> filter is_read cs = [])
            \<and> read_count (snd (read t n timeout_sec w)) = read_count w + 1)
       \<and> (await_ready (PList [read_fd t]) (PList []) PNone (deadline timeout_sec w) w = (Inr v, w1)
            \<and> os_read (read_fd t) n w1 = (Inr got, w2) \<and> got \<noteq> [] \<longrightarrow>
            read t n timeout_sec w = (Inr got, w2)
            \<and> 1 \<le> length got \<and> int (length got) \<le> n)
       \<and> (read t n timeout_sec w = (r, w') \<longrightarrow> read_count w' \<le> read_count w + 1)
       \<and> (read t n timeout_sec w = (Inr bs, w') \<longrightarrow>
            1 \<le> length bs \<and> int (length bs) \<le> n \<and> read_count w' = read_count w + 1
            \<and> (\<exists>v1 w3. await_ready (PList [read_fd t]) (PList []) PNone (deadline timeout_sec w) w
                          = (Inr v1, w3)
                  \<and> os_read (read_fd t) n w3 = (Inr bs, w')))"
proof (intro conjI impI)
  assume aw: "await_ready (PList [read_fd t]) (PList []) PNone (deadline timeout_sec w) w = (Inl e, w1)"
  then show "read t n timeout_sec w = (Inl e, w1)" by (simp add: read_def)
  from aw show "read_count w1 = read_count w" by (rule await_ready_read_count)
next
  assume a: "await_ready (PList [read_fd t]) (PList []) PNone (deadline timeout_sec w) w = (Inr v, w1)
            \<and> read_fd t = Some fd"
  then have aw: "await_ready (PList [read_fd t]) (PList []) PNone (deadline timeout_sec w) w = (Inr v, w1)"
    and fd: "read_fd t = Some fd" by blast+
  have c1: "read_count w1 = read_count w" using aw by (rule await_ready_read_count)
  obtain r2 w2 where rd: "os_read (read_fd t) n w1 = (r2, w2)" by force
  with fd have c2: "calls w2 = calls w1 @ [Read fd n]" by (auto dest: os_read_calls)
  have ex: "\<exists>cs. calls (snd (read t n timeout_sec w)) = calls w2 @ cs \<and> filter is_read cs = []"
  proof (cases r2)
    case (Inl e')
    with aw rd show ?thesis by (simp add: read_def)
  next
    case (Inr to_return)
    show ?thesis
    proof (cases "to_return = []")
      case True
      obtain r3 w3 where cr: "close_and_raise t w2 = (r3 :: error + bytes, w3)" by force
      with True Inr aw rd have "snd (read t n timeout_sec w) = w3" by (simp add: read_def)
      with close_and_raise_calls [OF cr] show ?thesis by simp
    next
      case False
      with Inr aw rd show ?thesis by (simp add: read_def)
    qed
  qed
  then obtain cs where cs: "calls (snd (read t n timeout_sec w)) = calls w2 @ cs"
    "filter is_read cs = []" by blast
  with c2 show "\<exists>cs. calls (snd (read t n timeout_sec w)) = calls w1 @ Read fd n # cs
                  \<and> filter is_read cs = []" by simp
  from cs c2 c1 show "read_count (snd (read t n timeout_sec w)) = read_count w + 1"
    by (simp add: read_count_def)
next
  assume a: "await_ready (PList [read_fd t]) (PList []) PNone (deadline timeout_sec w) w = (Inr v, w1)
            \<and> os_read (read_fd t) n w1 = (Inr got, w2) \<and> got \<noteq> []"
  then show "read t n timeout_sec w = (Inr got, w2)" by (simp add: read_def)
  from a have "os_read (read_fd t) n w1 = (Inr got, w2)" by simp
  from os_read_ok [OF this] show "int (length got) \<le> n" by simp
  from a show "1 \<le> length got" by (simp add: Suc_le_eq)
next
  assume run: "read t n timeout_sec w = (r, w')"
  obtain r1 w1 where aw: "await_ready (PList [read_fd t]) (PList []) PNone (deadline timeout_sec w) w = (r1, w1)"
    by force
  have c1: "read_count w1 = read_count w" using aw by (rule await_ready_read_count)
  show "read_count w' \<le> read_count w + 1"
  proof (cases r1)
    case (Inl e)
    with aw run c1 show ?thesis by (auto simp: read_def)
  next
    case (Inr v)
    obtain r2 w2 where rd: "os_read (read_fd t) n w1 = (r2, w2)" by force
    show ?thesis
    proof (cases r2)
      case (Inl e)
      with Inr aw rd run c1 os_read_frame [OF rd] show ?thesis by (auto simp: read_def)
    next
      case got: (Inr to_return)
      show ?thesis
      proof (cases "to_return = []")
        case True
        with got Inr aw rd run have "close_and_raise t w2 = (r, w')"
          by (simp add: read_def)
        from close_and_raise_frame [OF this] c1 os_read_frame [OF rd]
        show ?thesis by auto
      next
        case False
        with got Inr aw rd run c1 os_read_frame [OF rd] show ?thesis
          by (auto simp: read_def)
      qed
    qed
  qed
next
  assume run: "read t n timeout_sec w = (Inr bs, w')"
  obtain r1 w1 where aw: "await_ready (PList [read_fd t]) (PList []) PNone (deadline timeout_sec w) w = (r1, w1)"
    by force
  have c1: "read_count w1 = read_count w" using aw by (rule await_ready_read_count)
  obtain r2 w2 where rd: "os_read (read_fd t) n w1 = (r2, w2)" by force
  from run aw obtain v where r1: "r1 = Inr v" by (cases r1) (auto simp: read_def)
  from run aw rd r1 obtain to_return where r2: "r2 = Inr to_return"
    by (cases r2) (auto simp: read_def)
  have ne: "to_return \<noteq> []"
  proof
    assume "to_return = []"
    with run aw rd r1 r2 have "close_and_raise t w2 = (Inr bs :: error + bytes, w')"
      by (simp add: read_def)
    from close_and_raise_frame [OF this] show False by simp
  qed
  with run aw rd r1 r2 have eq: "to_return = bs" "w2 = w'" by (simp_all add: read_def)
  with rd r2 have ok: "os_read (read_fd t) n w1 = (Inr bs, w')" by simp
  from ne eq show "1 \<le> length bs" by (simp add: Suc_le_eq)
  from os_read_ok [OF ok] c1 show "int (length bs) \<le> n" "read_count w' = read_count w + 1"
    by simp_all
  from aw r1 ok show "\<exists>v1 w3. await_ready (PList [read_fd t]) (PList []) PNone (deadline timeout_sec w) w
                          = (Inr v1, w3) \<and> os_read (read_fd t) n w3 = (Inr bs, w')"
    by blast
qed


theorem read_single_attempt_witness:
  "(0::int) < 5
   \<and> read_fd tr34 = Some 3
   \<and> await_ready (PList [read_fd tr34]) (PList []) PNone
         (deadline (Some 1) (world0\<lparr>selects := [(1 / 4, [3], [], [])], reads := [Some (hello @ [33])]\<rparr>))
         (world0\<lparr>selects := [(1 / 4, [3], [], [])], reads := [Some (hello @ [33])]\<rparr>) =
       (Inr None, world0\<lparr>clock := 1 / 4, reads := [Some (hello @ [33])],
                          calls := [Select [3] [] [3] 1]\<rparr>)
   \<and> os_read (read_fd tr34) 5
         (world0\<lparr>clock := 1 / 4, reads := [Some (hello @ [33])], calls := [Select [3] [] [3] 1]\<rparr>) =
       (Inr hello, world0\<lparr>clock := 1 / 4, calls := [Select [3] [] [3] 1, Read 3 5]\<rparr>)
   \<and> hello \<noteq> []
   \<and> read tr34 5 (Some 1)
         (world0\<lparr>selects := [(1 / 4, [3], [], [])], reads := [Some (hello @ [33])]\<rparr>) =
       (Inr hello, world0\<lparr>clock := 1 / 4, calls := [Select [3] [] [3] 1, Read 3 5]\<rparr>)
   \<and> 1 \<le> length hello \<and> int (length hello) \<le> 5
   \<and> read_count (world0\<lparr>clock := 1 / 4, calls := [Select [3] [] [3] 1, Read 3 5]\<rparr>) =
       read_count (world0\<lparr>selects := [(1 / 4, [3], [], [])], reads := [Some (hello @ [33])]\<rparr>) + 1
   \<and> await_ready (PList [read_fd tr34]) (PList []) PNone (deadline (Some 1) world0) world0 =
       (Inl IoTimeoutError, world0\<lparr>clock := 1, calls := [Select [3] [] [3] 1]\<rparr>)
   \<and> read tr34 5 (Some 1) world0 =
       (Inl IoTimeoutError, world0\<lparr>clock := 1, calls := [Select [3] [] [3] 1]\<rparr>)
   \<and> read_count (world0\<lparr>clock := 1, calls := [Select [3] [] [3] 1]\<rparr>) = read_count world0"
proof -
  let ?w = "world0\<lparr>selects := [(1 / 4, [3], [], [])], reads := [Some (hello @ [33])]\<rparr>"
  let ?wa = "world0\<lparr>clock := 1 / 4, reads := [Some (hello @ [33])], calls := [Select [3] [] [3] 1]\<rparr>"
  let ?wb = "world0\<lparr>clock := 1 / 4, calls := [Select [3] [] [3] 1, Read 3 5]\<rparr>"
  let ?wt = "world0\<lparr>clock := 1, calls := [Select [3] [] [3] 1]\<rparr>"
  have pos: "(0::int) < 5" by simp
  have fd: "read_fd tr34 = Some 3" by (simp add: tr34_def)
  have aw: "await_ready (PList [read_fd tr34]) (PList []) PNone (deadline (Some 1) ?w) ?w = (Inr None, ?wa)"
    by (simp add: await_ready_def select_select_def os_select_def monotonic_def deadline_def
        tr34_def world0_def logged_def)
  have rd: "os_read (read_fd tr34) 5 ?wa = (Inr hello, ?wb)"
    by (simp add: os_read_def tr34_def world0_def logged_def hello_def)
  have ne: "hello \<noteq> []" by (simp add: hello_def)
  have to: "await_ready (PList [read_fd tr34]) (PList []) PNone (deadline (Some 1) world0) world0 =
      (Inl IoTimeoutError, ?wt)"
    by (simp add: await_ready_def select_select_def os_select_def monotonic_def deadline_def
        tr34_def world0_def logged_def)
  note inst = read_single_attempt [OF pos]
  have fwd: "read tr34 5 (Some 1) ?w = (Inr hello, ?wb) \<and> 1 \<le> length hello \<and> int (length hello) \<le> 5"
    using inst [where t = tr34 and timeout_sec = "Some 1" and w = ?w and v = None and ?w1.0 = ?wa
        and got = hello and ?w2.0 = ?wb] aw rd ne by blast
  then have run: "read tr34 5 (Some 1) ?w = (Inr hello, ?wb)" by blast
  have cnt: "read_count ?wb = read_count ?w + 1"
    using inst [where t = tr34 and timeout_sec = "Some 1" and w = ?w and bs = hello and w' = ?wb]
      run by blast
  have tmo: "read tr34 5 (Some 1) world0 = (Inl IoTimeoutError, ?wt) \<and> read_count ?wt = read_count world0"
    using inst [where t = tr34 and timeout_sec = "Some 1" and w = world0 and e = IoTimeoutError
        and ?w1.0 = ?wt] to by blast
  from pos fd aw rd ne fwd cnt to tmo show ?thesis by blast
qed

subsection \<open>Timeouts\<close>

text \<open>
  C5. When \<^verbatim>\<open>read\<close> fails with the timeout error, the only call it has made is the one
  \<^verbatim>\<open>select\<close> that timed out: the table of open descriptors and their flags is as it
  was, nothing was read, written or closed, and the instance (which no method
  assigns to) is as it was, so the call can be made again. \<^verbatim>\<open>write\<close> never fails with
  the timeout error at all, so the same holds of it trivially.
\<close>

theorem timeout_leaves_transport_open:
  "(read t n timeout_sec w = (Inl IoTimeoutError, w') \<longrightarrow>
      fdtab w' = fdtab w \<and> reads w' = reads w \<and> writes w' = writes w \<and> sent w' = sent w
      \<and> (\<exists>c. is_select c \<and> calls w' = calls w @ [c]))
   \<and> fst (write' t data timeout_sec w) \<noteq> Inl IoTimeoutError"
proof (intro conjI impI)
  assume rd: "read t n timeout_sec w = (Inl IoTimeoutError, w')"
  obtain r1 w1 where aw: "await_ready (PList [read_fd t]) (PList []) PNone (deadline timeout_sec w) w = (r1, w1)"
    by force
  have "r1 = Inl IoTimeoutError \<and> w1 = w'"
  proof (cases r1)
    case (Inl e)
    with aw rd show ?thesis by (simp add: read_def)
  next
    case (Inr v)
    obtain r2 w2 where os: "os_read (read_fd t) n w1 = (r2, w2)" by force
    show ?thesis
    proof (cases r2)
      case (Inl e)
      with Inr aw os rd os_read_frame [OF os] show ?thesis by (simp add: read_def)
    next
      case got: (Inr to_return)
      show ?thesis
      proof (cases "to_return = []")
        case True
        with got Inr aw os rd have "close_and_raise t w2 = (Inl IoTimeoutError :: error + bytes, w')"
          by (simp add: read_def)
        from close_and_raise_frame [OF this] show ?thesis by simp
      next
        case False
        with got Inr aw os rd show ?thesis by (simp add: read_def)
      qed
    qed
  qed
  with aw have to: "await_ready (PList [read_fd t]) (PList []) PNone (deadline timeout_sec w) w
      = (Inl IoTimeoutError, w')" by simp
  from await_ready_frame [OF to] await_ready_timeout [OF to]
  show "fdtab w' = fdtab w" "reads w' = reads w" "writes w' = writes w" "sent w' = sent w"
    "\<exists>c. is_select c \<and> calls w' = calls w @ [c]" by simp_all
next
  show "fst (write' t data timeout_sec w) \<noteq> Inl IoTimeoutError"
    using write_never_waits [of t data timeout_sec w] by simp
qed


theorem timeout_leaves_transport_open_witness:
  "read tr34 1 (Some 1) world0 =
     (Inl IoTimeoutError, world0\<lparr>clock := 1, calls := [Select [3] [] [3] 1]\<rparr>)
   \<and> fdtab (world0\<lparr>clock := 1, calls := [Select [3] [] [3] 1]\<rparr>) = fdtab world0
   \<and> reads (world0\<lparr>clock := 1, calls := [Select [3] [] [3] 1]\<rparr>) = reads world0
   \<and> calls (world0\<lparr>clock := 1, calls := [Select [3] [] [3] 1]\<rparr>) = calls world0 @ [Select [3] [] [3] 1]
   \<and> fst (read tr34 1 (Some 1)
            (world0\<lparr>clock := 1, calls := [Select [3] [] [3] 1],
                     selects := [(1 / 2, [3], [], [])], reads := [Some [7]]\<rparr>)) = Inr [7]"
proof -
  have retry: "fst (read tr34 1 (Some 1)
            (world0\<lparr>clock := 1, calls := [Select [3] [] [3] 1],
                     selects := [(1 / 2, [3], [], [])], reads := [Some [7]]\<rparr>)) = Inr [7]"
    by (simp add: read_def await_ready_def select_select_def os_select_def monotonic_def
      deadline_def tr34_def world0_def logged_def os_read_def)
  from timeout_leaves_transport_open [of tr34 1 "Some 1" world0 _ "[]"] read_times_out retry
  show ?thesis by (simp add: world0_def)
qed


subsection \<open>Detected closure\<close>

lemma close_releases:
  assumes "read_fd t = Some r" "write_fd t = Some wr" "r \<noteq> wr"
    and "fdtab w r \<noteq> None" "fdtab w wr \<noteq> None"
  shows "close t w =
     (Inr (), w\<lparr>calls := calls w @ [Close r, Close wr], fdtab := (fdtab w)(r := None, wr := None)\<rparr>)"
  using assms by (auto simp: close_def os_close_def logged_def)

lemma close_and_raise_released:
  assumes "close_and_raise t w = (Inl TransportClosedError, w')"
    and "read_fd t = Some r" "write_fd t = Some wr"
  shows "fdtab w' r = None \<and> fdtab w' wr = None"
  using assms
  by (auto simp: close_and_raise_def close_def os_close_def logged_def
      split: sum.splits prod.splits option.splits if_splits)

lemma write_loop_closed_released:
  assumes "write_loop t end_time data w = (res, w')"
    and "read_fd t = Some r" "write_fd t = Some wr"
  shows "res = Inl TransportClosedError \<longrightarrow> fdtab w' r = None \<and> fdtab w' wr = None"
  using assms(1)
proof (induction rule: write_loop_outcome)
  case (empty w)
  show ?case by simp
next
  case (fail data w e w2)
  from os_write_frame [OF fail(2)] show ?case by simp
next
  case (zero data w w2 res w')
  then show ?case using assms(2,3) by (auto dest: close_and_raise_released)
next
  case (step data w k w2 res w')
  then show ?case by simp
qed

text \<open>
  C4, as the code has it. On a transport whose two descriptors are distinct and open:
  \<^item> a \<^verbatim>\<open>read\<close> whose one read attempt returns zero bytes closes the read descriptor,
    then the write descriptor, and then raises the closed error;
  \<^item> an iteration of the loop of \<^verbatim>\<open>write\<close> whose write attempt returns zero does the
    same;
  \<^item> whenever \<^verbatim>\<open>read\<close> or \<^verbatim>\<open>write\<close> ends with the closed error, both descriptors
    have been released.
\<close>

theorem detected_closure_releases_then_raises:
  assumes "read_fd t = Some r" and "write_fd t = Some wr" and "r \<noteq> wr"
    and "fdtab w r \<noteq> None" and "fdtab w wr \<noteq> None"
  shows "(await_ready (PList [read_fd t]) (PList []) PNone (deadline timeout_sec w) w = (Inr v, w1)
            \<and> os_read (read_fd t) n w1 = (Inr [], w2) \<longrightarrow>
          (\<exists>w'. read t n timeout_sec w = (Inl TransportClosedError, w')
              \<and> fdtab w' r = None \<and> fdtab w' wr = None
              \<and> calls w' = calls w2 @ [Close r, Close wr]))
       \<and> (data \<noteq> [] \<and> os_write (write_fd t) data w = (Inr 0, w3) \<longrightarrow>
          (\<exists>w'. write_loop t end_time data w = (Inl TransportClosedError, w')
              \<and> fdtab w' r = None \<and> fdtab w' wr = None
              \<and> calls w' = calls w3 @ [Close r, Close wr]))
       \<and> (read t n timeout_sec w = (Inl TransportClosedError, w4) \<longrightarrow>
            fdtab w4 r = None \<and> fdtab w4 wr = None)
       \<and> (write' t data timeout_sec w = (Inl TransportClosedError, w5) \<longrightarrow>
            fdtab w5 r = None \<and> fdtab w5 wr = None)"
proof (intro conjI impI)
  assume a: "await_ready (PList [read_fd t]) (PList []) PNone (deadline timeout_sec w) w = (Inr v, w1)
            \<and> os_read (read_fd t) n w1 = (Inr [], w2)"
  then have aw: "await_ready (PList [read_fd t]) (PList []) PNone (deadline timeout_sec w) w = (Inr v, w1)"
    and rd: "os_read (read_fd t) n w1 = (Inr [], w2)" by simp_all
  have "fdtab w2 = fdtab w"
    using await_ready_frame [OF aw] os_read_frame [OF rd] by simp
  with assms have op: "fdtab w2 r \<noteq> None" "fdtab w2 wr \<noteq> None" by simp_all
  have "read t n timeout_sec w = close_and_raise t w2"
    using aw rd by (simp add: read_def)
  also have "\<dots> = (Inl TransportClosedError,
      w2\<lparr>calls := calls w2 @ [Close r, Close wr], fdtab := (fdtab w2)(r := None, wr := None)\<rparr>)"
    using close_releases [OF assms(1-3) op] by (simp add: close_and_raise_def)
  finally show "\<exists>w'. read t n timeout_sec w = (Inl TransportClosedError, w')
              \<and> fdtab w' r = None \<and> fdtab w' wr = None
              \<and> calls w' = calls w2 @ [Close r, Close wr]" by simp
next
  assume a: "data \<noteq> [] \<and> os_write (write_fd t) data w = (Inr 0, w3)"
  then have ne: "data \<noteq> []" and ow: "os_write (write_fd t) data w = (Inr 0, w3)" by simp_all
  have "fdtab w3 = fdtab w" using os_write_frame [OF ow] by simp
  with assms have op: "fdtab w3 r \<noteq> None" "fdtab w3 wr \<noteq> None" by simp_all
  have "write_loop t end_time data w = close_and_raise t w3"
    using ne ow by (subst write_loop_unfold) simp
  also have "\<dots> = (Inl TransportClosedError,
      w3\<lparr>calls := calls w3 @ [Close r, Close wr], fdtab := (fdtab w3)(r := None, wr := None)\<rparr>)"
    using close_releases [OF assms(1-3) op] by (simp add: close_and_raise_def)
  finally show "\<exists>w'. write_loop t end_time data w = (Inl TransportClosedError, w')
              \<and> fdtab w' r = None \<and> fdtab w' wr = None
              \<and> calls w' = calls w3 @ [Close r, Close wr]" by simp
next
  assume rd: "read t n timeout_sec w = (Inl TransportClosedError, w4)"
  obtain r1 w1 where aw: "await_ready (PList [read_fd t]) (PList []) PNone (deadline timeout_sec w) w = (r1, w1)"
    by force
  have nc: "r1 \<noteq> Inl TransportClosedError"
    using aw
    by (auto simp: await_ready_def select_select_def os_select_def
        split: sum.splits prod.splits if_splits pyval.splits option.splits list.splits)
  obtain r2 w2 where os: "os_read (read_fd t) n w1 = (r2, w2)" by force
  have "close_and_raise t w2 = (Inl TransportClosedError :: error + bytes, w4)"
    using rd aw os nc os_read_frame [OF os]
    by (auto simp: read_def split: sum.splits if_splits)
  from close_and_raise_released [OF this assms(1,2)]
  show "fdtab w4 r = None" "fdtab w4 wr = None" by simp_all
next
  assume wr: "write' t data timeout_sec w = (Inl TransportClosedError, w5)"
  obtain res w1 where run: "write_loop t (deadline timeout_sec w) data w = (res, w1)" by force
  with wr have "res = Inl TransportClosedError" "w1 = w5"
    by (auto simp: write'_def split: sum.splits)
  with write_loop_closed_released [OF run assms(1,2)]
  show "fdtab w5 r = None" "fdtab w5 wr = None" by simp_all
qed

theorem detected_closure_releases_then_raises_witness:
  "read_fd tr34 = Some 3 \<and> write_fd tr34 = Some 4 \<and> (3::int) \<noteq> 4
   \<and> fdtab (world0\<lparr>reads := [Some []], writes := [Some 0]\<rparr>) 3 = Some 2048
   \<and> fdtab (world0\<lparr>reads := [Some []], writes := [Some 0]\<rparr>) 4 = Some 2049
   \<and> os_read (read_fd tr34) 5 (world0\<lparr>reads := [Some []], writes := [Some 0]\<rparr>) =
        (Inr [], world0\<lparr>reads := [], writes := [Some 0], calls := [Read 3 5]\<rparr>)
   \<and> fst (read tr34 5 None (world0\<lparr>reads := [Some []], writes := [Some 0]\<rparr>)) =
        Inl TransportClosedError
   \<and> fdtab (snd (read tr34 5 None (world0\<lparr>reads := [Some []], writes := [Some 0]\<rparr>))) 3 = None
   \<and> fdtab (snd (read tr34 5 None (world0\<lparr>reads := [Some []], writes := [Some 0]\<rparr>))) 4 = None
   \<and> calls (snd (read tr34 5 None (world0\<lparr>reads := [Some []], writes := [Some 0]\<rparr>))) =
        [Read 3 5, Close 3, Close 4]
   \<and> fst (os_write (write_fd tr34) [97] (world0\<lparr>reads := [Some []], writes := [Some 0]\<rparr>)) = Inr 0
   \<and> fst (write' tr34 [97] (Some 1) (world0\<lparr>reads := [Some []], writes := [Some 0]\<rparr>)) =
        Inl TransportClosedError
   \<and> fdtab (snd (write' tr34 [97] (Some 1) (world0\<lparr>reads := [Some []], writes := [Some 0]\<rparr>))) 3 = None
   \<and> fdtab (snd (write' tr34 [97] (Some 1) (world0\<lparr>reads := [Some []], writes := [Some 0]\<rparr>))) 4 = None
   \<and> calls (snd (write' tr34 [97] (Some 1) (world0\<lparr>reads := [Some []], writes := [Some 0]\<rparr>))) =
        [Write 4 [97], Close 3, Close 4]"
proof -
  let ?w = "world0\<lparr>reads := [Some []], writes := [Some 0]\<rparr>"
  have r: "read_fd tr34 = Some 3" and wr: "write_fd tr34 = Some 4" by (simp_all add: tr34_def)
  have ne: "(3::int) \<noteq> 4" by simp
  have o3: "fdtab ?w 3 \<noteq> None" and o4: "fdtab ?w 4 \<noteq> None" by (simp_all add: world0_def)
  have f3: "fdtab ?w 3 = Some 2048" and f4: "fdtab ?w 4 = Some 2049" by (simp_all add: world0_def)
  have aw: "await_ready (PList [read_fd tr34]) (PList []) PNone (deadline None ?w) ?w = (Inr None, ?w)"
    by (simp add: deadline_def await_ready_no_end_time)
  have rd: "os_read (read_fd tr34) 5 ?w =
      (Inr [], world0\<lparr>reads := [], writes := [Some 0], calls := [Read 3 5]\<rparr>)"
    by (simp add: os_read_def tr34_def world0_def logged_def)
  have ow: "os_write (write_fd tr34) [97] ?w =
      (Inr 0, world0\<lparr>reads := [Some []], writes := [], sent := (\<lambda>fd. [])(4 := []),
                      calls := [Write 4 [97]]\<rparr>)"
    by (simp add: os_write_def tr34_def world0_def logged_def)
  let ?r2 = "world0\<lparr>reads := [], writes := [Some 0], calls := [Read 3 5]\<rparr>"
  let ?w3 = "world0\<lparr>reads := [Some []], writes := [], sent := (\<lambda>fd. [])(4 := []),
                      calls := [Write 4 [97]]\<rparr>"
  note inst = detected_closure_releases_then_raises [OF r wr ne o3 o4]
  have "\<exists>w'. read tr34 5 None ?w = (Inl TransportClosedError, w')
              \<and> fdtab w' 3 = None \<and> fdtab w' 4 = None
              \<and> calls w' = calls ?r2 @ [Close 3, Close 4]"
    using inst [where timeout_sec = None and v = None and ?w1.0 = ?w and n = 5 and ?w2.0 = ?r2]
      aw rd by blast
  then obtain w' where
    1: "read tr34 5 None ?w = (Inl TransportClosedError, w')"
      "fdtab w' 3 = None" "fdtab w' 4 = None"
      "calls w' = [Read 3 5, Close 3, Close 4]"
    by (auto simp: world0_def)
  have "\<exists>w'. write_loop tr34 (deadline (Some 1) ?w) [97] ?w = (Inl TransportClosedError, w')
              \<and> fdtab w' 3 = None \<and> fdtab w' 4 = None
              \<and> calls w' = calls ?w3 @ [Close 3, Close 4]"
    using inst [where data = "[97]" and ?w3.0 = ?w3 and end_time = "deadline (Some 1) ?w"]
      ow by blast
  then obtain w'' where
    2: "write_loop tr34 (deadline (Some 1) ?w) [97] ?w = (Inl TransportClosedError, w'')"
      "fdtab w'' 3 = None" "fdtab w'' 4 = None"
      "calls w'' = [Write 4 [97], Close 3, Close 4]"
    by (auto simp: world0_def)
  from 2(1) have 3: "write' tr34 [97] (Some 1) ?w = (Inl TransportClosedError, w'')"
    by (simp add: write'_def)
  from 1 2 3 r wr ne f3 f4 rd ow show ?thesis by simp
qed

text \<open>
  C4, as it is stated, for every call: it fails when one descriptor serves both
  directions. The read attempt on descriptor 3 returns zero bytes; \<^verbatim>\<open>close\<close> releases
  3 as the read descriptor and calls \<^verbatim>\<open>os.close(3)\<close> again for the write descriptor,
  which fails, so \<^verbatim>\<open>read\<close> ends with that \<^verbatim>\<open>OSError\<close> and never raises the closed error.
\<close>

theorem shared_descriptor_closure_counterexample:
  "os_read (Some 3) 5 (world0\<lparr>reads := [Some []]\<rparr>) = (Inr [], world0\<lparr>calls := [Read 3 5]\<rparr>)
   \<and> read \<lparr>read_fd = Some 3, write_fd = Some 3\<rparr> 5 None (world0\<lparr>reads := [Some []]\<rparr>) =
       (Inl OSError, world0\<lparr>fdtab := (fdtab world0)(3 := None), calls := [Read 3 5, Close 3, Close 3]\<rparr>)"
  by (simp add: read_def await_ready_def deadline_def os_read_def close_and_raise_def close_def
      os_close_def logged_def world0_def)


subsection \<open>The readiness wait of \<^verbatim>\<open>write\<close>\<close>

text \<open>
  \<^verbatim>\<open>write\<close> never calls \<^verbatim>\<open>select\<close> and never ends with the timeout error, whatever the
  timeout, the payload and the peer: \<open>write_never_waits\<close> above.
\<close>

text \<open>
  C1, on the small world, whose write descriptor never becomes ready within the one
  second allowed: \<^verbatim>\<open>write(b"a", 1)\<close> makes no \<^verbatim>\<open>select\<close> call, goes straight to
  \<^verbatim>\<open>os.write\<close> and ends with its \<^verbatim>\<open>OSError\<close>; no time has passed. \<^verbatim>\<open>read\<close>, which
  passes the deadline by keyword, waits the second and ends with the timeout error.
\<close>

theorem write_skips_readiness_wait:
  "write' tr34 [97] (Some 1) world0 = (Inl OSError, world0\<lparr>calls := [Write 4 [97]]\<rparr>)
   \<and> read tr34 1 (Some 1) world0 =
       (Inl IoTimeoutError, world0\<lparr>clock := 1, calls := [Select [3] [] [3] 1]\<rparr>)"
  by (simp add: write'_def write_loop_unfold os_write_def deadline_def tr34_def world0_def logged_def
      read_def await_ready_def select_select_def os_select_def monotonic_def)

subsection \<open>Closing twice\<close>

text \<open>
  \<^verbatim>\<open>close\<close> tests each descriptor against \<^verbatim>\<open>None\<close>, and nothing ever assigns \<^verbatim>\<open>None\<close>:
  every call of \<^verbatim>\<open>close\<close> calls \<^verbatim>\<open>os.close\<close> on the read descriptor.
\<close>

lemma close_always_calls_os_close:
  assumes "read_fd t = Some r"
  shows "count_list (calls (snd (close t w))) (Close r) \<ge> count_list (calls w) (Close r) + 1"
  using assms
  by (auto simp: close_def os_close_def logged_def split: option.splits)

text \<open>
  C2, on the small world: the first \<^verbatim>\<open>close()\<close> releases descriptors 3 and 4; the second
  calls \<^verbatim>\<open>os.close(3)\<close> again, on a descriptor already released, and ends with its
  \<^verbatim>\<open>OSError\<close>.
\<close>

theorem close_twice_closes_again:
  "close tr34 world0 =
     (Inr (), world0\<lparr>fdtab := (fdtab world0)(3 := None, 4 := None), calls := [Close 3, Close 4]\<rparr>)
   \<and> close tr34 (world0\<lparr>fdtab := (fdtab world0)(3 := None, 4 := None), calls := [Close 3, Close 4]\<rparr>) =
     (Inl OSError, world0\<lparr>fdtab := (fdtab world0)(3 := None, 4 := None),
                          calls := [Close 3, Close 4, Close 3]\<rparr>)"
  by (simp add: close_def os_close_def tr34_def world0_def logged_def)

subsection \<open>Configuring a blocking descriptor\<close>

text \<open>
  On an open descriptor in blocking mode, \<^verbatim>\<open>_validate_configure_fd\<close> sets the flag and
  then tests the return value of the \<^verbatim>\<open>F_SETFL\<close> call, not the flags of the descriptor:
  there is no second \<^verbatim>\<open>F_GETFL\<close>. It raises exactly when that return value lacks the
  bit, in every case with the flag set on the descriptor. A descriptor already
  non-blocking is accepted after the one \<^verbatim>\<open>F_GETFL\<close>.
\<close>

lemma validate_configure_fd_blocking:
  assumes "fdtab w (fileno f) = Some flag" and "flag AND O_NONBLOCK = 0"
  shows "validate_configure_fd f w =
     (if setfl_ret w AND O_NONBLOCK = 0 then Inl FdConfigurationError else Inr (fileno f),
      w\<lparr>calls := calls w @ [Fcntl_GETFL (fileno f), Fcntl_SETFL (fileno f) (O_NONBLOCK OR flag)],
        fdtab := (fdtab w)(fileno f \<mapsto> O_NONBLOCK OR flag)\<rparr>)"
  using assms
  by (simp add: validate_configure_fd_def fcntl_getfl_def fcntl_setfl_def logged_def Let_def)

lemma validate_configure_fd_nonblocking:
  assumes "fdtab w (fileno f) = Some flag" and "flag AND O_NONBLOCK \<noteq> 0"
  shows "validate_configure_fd f w = (Inr (fileno f), w\<lparr>calls := calls w @ [Fcntl_GETFL (fileno f)]\<rparr>)"
  using assms
  by (simp add: validate_configure_fd_def fcntl_getfl_def logged_def Let_def)


text \<open>
  C3, on Linux, where a successful \<^verbatim>\<open>F_SETFL\<close> returns 0: descriptor 3 is open in
  blocking mode; the configurator sets \<^verbatim>\<open>O_NONBLOCK\<close> on it, which takes effect, and
  raises the configuration error all the same, so construction fails.
\<close>

theorem blocking_descriptor_is_rejected:
  "validate_configure_fd (FdInt 3) (world0\<lparr>fdtab := [3 \<mapsto> 0, 4 \<mapsto> 1]\<rparr>) =
     (Inl FdConfigurationError,
      world0\<lparr>fdtab := [3 \<mapsto> 0, 4 \<mapsto> 1](3 \<mapsto> 2048),
              calls := [Fcntl_GETFL 3, Fcntl_SETFL 3 2048]\<rparr>)
   \<and> fst (init (FdInt 3) (FdInt 4) (world0\<lparr>fdtab := [3 \<mapsto> 0, 4 \<mapsto> 1]\<rparr>)) = Inl FdConfigurationError"
  by (simp add: init_def validate_configure_fd_def fcntl_getfl_def fcntl_setfl_def O_NONBLOCK_def
      world0_def logged_def)


end
